theory Spec2Isabelle
  imports Complex_Main "HOL-Library.Sublist"
begin

section \<open>JavaScript strings\<close>

text \<open>
  A JavaScript string is a sequence of code units; here it is a \<open>string\<close> (a list of
  \<open>char\<close>), so the model covers text whose code units lie in the range 0..255. The
  white space of \<open>\s\<close> and of \<open>trim\<close> in that range is TAB, LF, VT, FF, CR, SPACE and
  NBSP; the line terminators excluded by \<open>.\<close> are LF and CR.
\<close>

definition isWhitespace :: "char \<Rightarrow> bool" where
  "isWhitespace c =
     (c \<in> set [CHR 0x09, CHR 0x0A, CHR 0x0B, CHR 0x0C, CHR 0x0D, CHR 0x20, CHR 0xA0])"

definition isLineTerminator :: "char \<Rightarrow> bool" where
  "isLineTerminator c = (c = CHR 0x0A \<or> c = CHR 0x0D)"

text \<open>\<open>s.slice(a, b)\<close> for indices that are not negative.\<close>

definition slice :: "'a list \<Rightarrow> nat \<Rightarrow> nat \<Rightarrow> 'a list" where
  "slice s a b = take (b - a) (drop a s)"

text \<open>\<open>s.startsWith(p)\<close>.\<close>

definition startsWith :: "string \<Rightarrow> string \<Rightarrow> bool" where
  "startsWith s p = prefix p s"

text \<open>\<open>s.trim()\<close>.\<close>

definition trim :: "string \<Rightarrow> string" where
  "trim s = rev (dropWhile isWhitespace (rev (dropWhile isWhitespace s)))"

text \<open>
  \<open>s.indexOf(t, k)\<close>: the first position at or after \<open>k\<close> where \<open>t\<close> occurs, \<open>None\<close>
  for the source's \<open>-1\<close>. The position is clamped to the length, as JavaScript does.
\<close>

fun indexOfAux :: "string \<Rightarrow> string \<Rightarrow> nat \<Rightarrow> nat option" where
  "indexOfAux t [] i = (if t = [] then Some i else None)"
| "indexOfAux t (c # cs) i =
     (if prefix t (c # cs) then Some i else indexOfAux t cs (Suc i))"

definition indexOfFrom :: "string \<Rightarrow> string \<Rightarrow> nat \<Rightarrow> nat option" where
  "indexOfFrom s t k = indexOfAux t (drop (min k (length s)) s) (min k (length s))"

definition indexOf :: "string \<Rightarrow> string \<Rightarrow> nat option" where
  "indexOf s t = indexOfFrom s t 0"

text \<open>
  \<open>s.split(sep)\<close> for a separator that is not empty, and \<open>xs.join(sep)\<close>. The pieces
  are cut at the occurrences of the separator found from left to right.
\<close>

fun splitAcc :: "string \<Rightarrow> string \<Rightarrow> string \<Rightarrow> string list" where
  "splitAcc sep acc [] = [acc]"
| "splitAcc sep acc (c # cs) =
     (if sep \<noteq> [] \<and> prefix sep (c # cs)
      then acc # splitAcc sep [] (drop (length sep - 1) cs)
      else splitAcc sep (acc @ [c]) cs)"

definition split :: "string \<Rightarrow> string \<Rightarrow> string list" where
  "split s sep = splitAcc sep [] s"

fun join :: "string list \<Rightarrow> string \<Rightarrow> string" where
  "join [] sep = []"
| "join [x] sep = x"
| "join (x # y # ys) sep = x @ sep @ join (y # ys) sep"

section \<open>Pattern matcher (utils/fuzzy-match)\<close>

text \<open>
  \<open>levenshteinDistance\<close> fills its matrix row by row. \<open>fillRow\<close> computes the cells
  \<open>1 ..\<close> of row \<open>i\<close> from the row above: \<open>bc\<close> is \<open>b[i - 1]\<close>, the third argument is
  the row above from the diagonal cell on, and \<open>left\<close> is the cell just written.
\<close>

fun fillRow :: "char \<Rightarrow> string \<Rightarrow> nat list \<Rightarrow> nat \<Rightarrow> nat list" where
  "fillRow bc (ac # as) (diag # up # prevRow) left =
     (let cost = (if ac = bc then 0 else 1);
          v = min (min (up + 1) (left + 1)) (diag + cost)
      in v # fillRow bc as (up # prevRow) v)"
| "fillRow bc as prevRow left = []"

definition nextRow :: "string \<Rightarrow> nat list \<times> nat \<Rightarrow> char \<Rightarrow> nat list \<times> nat" where
  "nextRow a st bc = (case st of (prevRow, i) \<Rightarrow> (i # fillRow bc a prevRow i, Suc i))"

definition levenshteinDistance :: "string \<Rightarrow> string \<Rightarrow> nat" where
  "levenshteinDistance a b =
     (if a = [] then length b
      else if b = [] then length a
      else last (fst (foldl (nextRow a) ([0..<Suc (length a)], 1) b)))"

definition similarityRatio :: "string \<Rightarrow> string \<Rightarrow> real" where
  "similarityRatio a b =
     (let maxLength = max (length a) (length b)
      in if maxLength = 0 then 1
         else 1 - real (levenshteinDistance a b) / real maxLength)"

text \<open>
  \<open>text.replace(/\s+/g, " ").trim()\<close>: every run of white space becomes one space
  (\<open>inRun\<close> says that the character before belonged to such a run), then the ends are
  trimmed.
\<close>

fun collapseWhitespace :: "bool \<Rightarrow> string \<Rightarrow> string" where
  "collapseWhitespace inRun [] = []"
| "collapseWhitespace inRun (c # cs) =
     (if isWhitespace c
      then (if inRun then collapseWhitespace True cs
            else CHR '' '' # collapseWhitespace True cs)
      else c # collapseWhitespace False cs)"

definition normalizeWhitespace :: "string \<Rightarrow> string" where
  "normalizeWhitespace s = trim (collapseWhitespace False s)"

text \<open>
  The record returned by \<open>findBestMatch\<close>; \<open>matchText\<close> is the field \<open>match\<close> and
  \<open>endPos\<close> the field \<open>end\<close>. Similarities and thresholds are real numbers: the
  source compares the similarity it stores with the threshold it was given, and nothing
  proved below depends on how a double rounds. A caller that has no threshold passes
  the default 0.7.
\<close>

record matchCandidate =
  matchText :: string
  start :: nat
  endPos :: nat
  similarity :: real

text \<open>
  The inner loop of \<open>findBestMatch\<close> over the window positions that are left, and the
  outer loop over the window sizes that are left. \<open>best\<close> is \<open>bestMatch\<close>; both loops
  stop early once a window reaches similarity 0.95.
\<close>

fun slideWindow ::
  "string \<Rightarrow> string \<Rightarrow> real \<Rightarrow> nat \<Rightarrow> nat list \<Rightarrow> matchCandidate option
     \<Rightarrow> matchCandidate option" where
  "slideWindow content normalizedSearch threshold windowSize [] best = best"
| "slideWindow content normalizedSearch threshold windowSize (i # is) best =
     (let window = slice content i (i + windowSize);
          normalizedWindow = normalizeWhitespace window;
          sim = similarityRatio normalizedSearch normalizedWindow
      in if sim \<ge> threshold \<and> (case best of None \<Rightarrow> True | Some b \<Rightarrow> sim > similarity b)
         then (let found = \<lparr>matchText = window, start = i, endPos = i + windowSize,
                              similarity = sim\<rparr>
               in if sim \<ge> 95 / 100 then Some found
                  else slideWindow content normalizedSearch threshold windowSize is (Some found))
         else slideWindow content normalizedSearch threshold windowSize is best)"

fun tryWindowSizes ::
  "string \<Rightarrow> string \<Rightarrow> real \<Rightarrow> nat list \<Rightarrow> matchCandidate option
     \<Rightarrow> matchCandidate option" where
  "tryWindowSizes content normalizedSearch threshold [] best = best"
| "tryWindowSizes content normalizedSearch threshold (windowSize # rest) best =
     (if windowSize \<le> 0 \<or> windowSize > length content
      then tryWindowSizes content normalizedSearch threshold rest best
      else (let best' = slideWindow content normalizedSearch threshold windowSize
                          [0..<Suc (length content - windowSize)] best
            in if (case best' of None \<Rightarrow> False | Some b \<Rightarrow> similarity b \<ge> 95 / 100)
               then best'
               else tryWindowSizes content normalizedSearch threshold rest best'))"

text \<open>
  \<open>Math.floor(searchLength * 0.9)\<close> and its siblings are written with integer
  division: rounding the product to a double does not move it across an integer.
\<close>

definition windowSizes :: "nat \<Rightarrow> nat list" where
  "windowSizes searchLength =
     [searchLength, (searchLength * 9) div 10, (searchLength * 11) div 10,
      (searchLength * 8) div 10, (searchLength * 12) div 10]"

definition findBestMatch :: "string \<Rightarrow> string \<Rightarrow> real \<Rightarrow> matchCandidate option" where
  "findBestMatch content searchText threshold =
     (case indexOf content searchText of
        Some exactIndex \<Rightarrow>
          Some \<lparr>matchText = searchText, start = exactIndex,
                endPos = exactIndex + length searchText, similarity = 1\<rparr>
      | None \<Rightarrow>
          (let normalizedSearch = normalizeWhitespace searchText;
               searchLength = length normalizedSearch
           in tryWindowSizes content normalizedSearch threshold
                (windowSizes searchLength) None))"

section \<open>Structural patch engine (tools/edit-tools)\<close>

datatype operation = Append | Prepend | Replace

datatype error =
    ReadOnlyBlocked
  | BlockedByMcpIgnore
  | CannotModifyMcpIgnore
  | FileNotFound string
  | InvalidLineNumber int nat
  | HeadingNotFound string
  | BlockNotFound string
  | InvalidFrontmatter
  | UnknownTargetType string

text \<open>
  The errors are the messages the source throws or returns: \<open>ReadOnlyBlocked\<close> is
  "Write operation blocked: read-only mode is enabled", \<open>BlockedByMcpIgnore\<close> is
  "Access denied: path is blocked by .mcpignore", \<open>CannotModifyMcpIgnore\<close> is "Access
  denied: cannot modify .mcpignore", \<open>FileNotFound p\<close> is "File not found: p",
  \<open>InvalidLineNumber n k\<close> is "Invalid line number: n. File has k lines.",
  \<open>HeadingNotFound h\<close> is "Heading not found: h", \<open>BlockNotFound b\<close> is "Block not found:
  b", \<open>InvalidFrontmatter\<close> is "Invalid frontmatter: missing closing ---" and
  \<open>UnknownTargetType t\<close> is "Unknown target type: t".
\<close>

text \<open>
  \<open>xs.splice(start, deleteCount, ...items)\<close> for a start and a count that are not
  negative; \<open>take\<close> and \<open>drop\<close> clamp both to the length as JavaScript does.
\<close>

definition splice :: "'a list \<Rightarrow> nat \<Rightarrow> nat \<Rightarrow> 'a list \<Rightarrow> 'a list" where
  "splice xs startIndex deleteCount items =
     take startIndex xs @ items @ drop (startIndex + deleteCount) xs"

text \<open>
  \<open>nextLine.match(/^(#{1,6})\s+/)\<close>: the number of leading \<open>#\<close>, when there are one
  to six of them and white space follows.
\<close>

definition nextHeading :: "string \<Rightarrow> nat option" where
  "nextHeading nextLine =
     (let n = length (takeWhile (\<lambda>c. c = CHR ''#'') nextLine);
          rest = drop n nextLine
      in if 1 \<le> n \<and> n \<le> 6 \<and> rest \<noteq> [] \<and> isWhitespace (hd rest) then Some n else None)"

text \<open>
  \<open>line.match(/^(#{1,6})\s+(.+)$/)\<close>: the length of the first group and the second
  group. The white space \<open>\s+\<close> is greedy and gives characters back until what
  follows is a text that is not empty and has no line terminator up to the end of the
  line.
\<close>

definition headingMatch :: "string \<Rightarrow> (nat \<times> string) option" where
  "headingMatch line =
     (let n = length (takeWhile (\<lambda>c. c = CHR ''#'') line);
          rest = drop n line;
          w = length (takeWhile isWhitespace rest)
      in if 1 \<le> n \<and> n \<le> 6
         then (case find (\<lambda>j. drop j rest \<noteq> [] \<and> \<not> list_ex isLineTerminator (drop j rest))
                      (rev [1..<Suc w]) of
                 None \<Rightarrow> None
               | Some j \<Rightarrow> Some (n, drop j rest))
         else None)"

text \<open>
  The inner loop of \<open>patchHeading\<close>: from line \<open>j\<close> on, the first heading of the same
  or a higher level ends the section; without one the section ends with the document.
\<close>

fun findEnd :: "nat \<Rightarrow> string list \<Rightarrow> nat \<Rightarrow> nat" where
  "findEnd level [] j = j"
| "findEnd level (nextLine # ls) j =
     (case nextHeading nextLine of
        None \<Rightarrow> findEnd level ls (Suc j)
      | Some n \<Rightarrow> if n \<le> level then j else findEnd level ls (Suc j))"

text \<open>
  The outer loop of \<open>patchHeading\<close> over the lines that are left, \<open>i\<close> being the index
  of the first of them: the result is \<open>(targetStart, targetEnd)\<close>, and \<open>None\<close> when
  \<open>targetStart\<close> stays \<open>-1\<close>.
\<close>

fun findHeading ::
  "string list \<Rightarrow> nat \<Rightarrow> nat \<Rightarrow> string list \<Rightarrow> nat \<Rightarrow> (nat \<times> nat) option" where
  "findHeading headings currentLevel headingIndex [] i = None"
| "findHeading headings currentLevel headingIndex (line # ls) i =
     (case headingMatch line of
        None \<Rightarrow> findHeading headings currentLevel headingIndex ls (Suc i)
      | Some (level, title) \<Rightarrow>
          if headingIndex < length headings \<and> trim title = headings ! headingIndex
             \<and> level > currentLevel
          then (if Suc headingIndex = length headings
                then Some (i, findEnd level ls (Suc i))
                else findHeading headings level (Suc headingIndex) ls (Suc i))
          else findHeading headings currentLevel headingIndex ls (Suc i))"

definition resolveHeading :: "string \<Rightarrow> string \<Rightarrow> (nat \<times> nat) option" where
  "resolveHeading content headingPath =
     findHeading (split headingPath ''::'') 0 0 (split content ''\<newline>'') 0"

definition patchHeading :: "string \<Rightarrow> string \<Rightarrow> operation \<Rightarrow> string \<Rightarrow> error + string" where
  "patchHeading content headingPath operation patchContent =
     (let lines = split content ''\<newline>''
      in case resolveHeading content headingPath of
           None \<Rightarrow> Inl (HeadingNotFound headingPath)
         | Some (targetStart, targetEnd) \<Rightarrow>
             Inr (join
                   (case operation of
                      Replace \<Rightarrow>
                        splice lines (targetStart + 1) (targetEnd - targetStart - 1)
                          [patchContent]
                    | Prepend \<Rightarrow> splice lines (targetStart + 1) 0 [patchContent]
                    | Append \<Rightarrow> splice lines targetEnd 0 [patchContent])
                   ''\<newline>''))"

text \<open>
  The lines under a resolved heading, \<open>lines.slice(targetStart + 1, targetEnd)\<close> (the
  source's \<open>contentLines\<close>), joined back into the body of the section.
\<close>

definition contentLines :: "string \<Rightarrow> string \<Rightarrow> string list option" where
  "contentLines content headingPath =
     (case resolveHeading content headingPath of
        None \<Rightarrow> None
      | Some (targetStart, targetEnd) \<Rightarrow>
          Some (slice (split content ''\<newline>'') (targetStart + 1) targetEnd))"

definition headingBody :: "string \<Rightarrow> string \<Rightarrow> string option" where
  "headingBody content headingPath =
     map_option (\<lambda>ls. join ls ''\<newline>'') (contentLines content headingPath)"

text \<open>The level of the heading that a heading path resolves to (0 when it does not).\<close>

definition targetLevel :: "string \<Rightarrow> string \<Rightarrow> nat" where
  "targetLevel content headingPath =
     (case resolveHeading content headingPath of
        None \<Rightarrow> 0
      | Some (targetStart, targetEnd) \<Rightarrow>
          (case headingMatch (split content ''\<newline>'' ! targetStart) of
             None \<Rightarrow> 0
           | Some (level, title) \<Rightarrow> level))"

text \<open>
  \<open>patchBlock\<close>: the first line that includes the marker, with the position of the
  marker in it.
\<close>

definition trimEnd :: "string \<Rightarrow> string" where
  "trimEnd s = rev (dropWhile isWhitespace (rev s))"

fun findBlockLine :: "string \<Rightarrow> string list \<Rightarrow> nat \<Rightarrow> (nat \<times> nat) option" where
  "findBlockLine blockMarker [] i = None"
| "findBlockLine blockMarker (line # ls) i =
     (case indexOf line blockMarker of
        None \<Rightarrow> findBlockLine blockMarker ls (Suc i)
      | Some markerIndex \<Rightarrow> Some (i, markerIndex))"

definition patchBlock :: "string \<Rightarrow> string \<Rightarrow> operation \<Rightarrow> string \<Rightarrow> error + string" where
  "patchBlock content blockId operation patchContent =
     (let blockMarker = ''^'' @ blockId;
          lines = split content ''\<newline>''
      in case findBlockLine blockMarker lines 0 of
           None \<Rightarrow> Inl (BlockNotFound blockId)
         | Some (blockLine, markerIndex) \<Rightarrow>
             (let originalLine = lines ! blockLine;
                  textBefore = trimEnd (slice originalLine 0 markerIndex);
                  marker = drop markerIndex originalLine
              in Inr (join
                       (lines[blockLine :=
                          (case operation of
                             Replace \<Rightarrow> patchContent @ '' '' @ marker
                           | Prepend \<Rightarrow> patchContent @ '' '' @ textBefore @ '' '' @ marker
                           | Append \<Rightarrow> textBefore @ '' '' @ patchContent @ '' '' @ marker)])
                       ''\<newline>'')))"

text \<open>
  \<open>patchFrontmatter\<close>. The source builds \<open>new RegExp(`^${field}:\\s*`)\<close>; for a field
  name without regular-expression metacharacters (such as \<open>status\<close> or \<open>priority\<close>)
  the pattern is the literal prefix \<open>field:\<close> followed by white space, and that is
  what \<open>fieldPatternTest\<close> and \<open>removeFieldPattern\<close> model.
\<close>

definition fieldPatternTest :: "string \<Rightarrow> string \<Rightarrow> bool" where
  "fieldPatternTest field line = startsWith line (field @ '':'')"

definition removeFieldPattern :: "string \<Rightarrow> string \<Rightarrow> string" where
  "removeFieldPattern field line =
     (if fieldPatternTest field line
      then dropWhile isWhitespace (drop (length field + 1) line)
      else line)"

fun findFieldLine :: "string \<Rightarrow> string list \<Rightarrow> nat \<Rightarrow> nat option" where
  "findFieldLine field [] i = None"
| "findFieldLine field (line # ls) i =
     (if fieldPatternTest field line then Some i else findFieldLine field ls (Suc i))"

definition patchFrontmatter ::
  "string \<Rightarrow> string \<Rightarrow> operation \<Rightarrow> string \<Rightarrow> error + string" where
  "patchFrontmatter content field operation patchContent =
     (if \<not> startsWith content ''---''
      then Inr (''---\<newline>'' @ field @ '': '' @ patchContent @ ''\<newline>---\<newline>\<newline>'' @ content)
      else case indexOfFrom content ''---'' 3 of
             None \<Rightarrow> Inl InvalidFrontmatter
           | Some endIndex \<Rightarrow>
               (let frontmatter = slice content 4 endIndex;
                    rest = drop (endIndex + 3) content;
                    lines = split frontmatter ''\<newline>'';
                    lines' =
                      (case findFieldLine field lines 0 of
                         None \<Rightarrow> lines @ [field @ '': '' @ patchContent]
                       | Some fieldLine \<Rightarrow>
                           (let currentLine = lines ! fieldLine;
                                currentValue = removeFieldPattern field currentLine
                            in lines[fieldLine :=
                                 (case operation of
                                    Replace \<Rightarrow> field @ '': '' @ patchContent
                                  | Prepend \<Rightarrow> field @ '': '' @ patchContent @ currentValue
                                  | Append \<Rightarrow> field @ '': '' @ currentValue @ patchContent)]))
                in Inr (''---\<newline>'' @ join lines' ''\<newline>'' @ ''---'' @ rest)))"

section \<open>Ignore-pattern engine and access control (security)\<close>

text \<open>
  The vault maps a path to a file with its text or to a folder. \<open>McpIgnoreManager\<close> holds
  the patterns that were loaded and whether the engine is enabled.
\<close>

datatype entry = TFile string | TFolder

type_synonym vault = "string \<rightharpoonup> entry"

record McpIgnoreManager =
  patterns :: "string list"
  enabled :: bool

definition initialIgnoreManager :: McpIgnoreManager where
  "initialIgnoreManager = \<lparr>patterns = [], enabled = False\<rparr>"

definition parsePatterns :: "string \<Rightarrow> string list" where
  "parsePatterns content =
     filter (\<lambda>line. line \<noteq> [] \<and> \<not> startsWith line ''#'')
       (map trim (split content ''\<newline>''))"

text \<open>
  \<open>load\<close> reads \<open>.mcpignore\<close> from the vault; a read that fails leaves the same state
  as a missing file.
\<close>

definition load :: "vault \<Rightarrow> McpIgnoreManager" where
  "load v =
     (case v ''.mcpignore'' of
        Some (TFile content) \<Rightarrow>
          (let ps = parsePatterns content in \<lparr>patterns = ps, enabled = (ps \<noteq> [])\<rparr>)
      | _ \<Rightarrow> \<lparr>patterns = [], enabled = False\<rparr>)"

text \<open>
  \<open>matchesPattern\<close> turns a gitignore-style pattern into the source of a regular
  expression and tests the path against it. The chain of \<open>replace\<close> calls is
  \<open>regexSource\<close>: \<open>escapeSpecial\<close> is \<open>replace(/[.+^${}()|[\]\\]/g, "\\$&")\<close>, and
  \<open>replaceAll\<close> replaces the occurrences of a literal text from left to right.
  \<open>new RegExp(regexStr).test(path)\<close> belongs to the JavaScript runtime and is the
  parameter \<open>regExpTest\<close>, \<open>None\<close> when the constructor throws; what is proved holds for
  every such engine.
\<close>

definition endsWith :: "string \<Rightarrow> string \<Rightarrow> bool" where
  "endsWith s p = suffix p s"

definition escapeSpecial :: "string \<Rightarrow> string" where
  "escapeSpecial s =
     concat (map (\<lambda>c. if c \<in> set (''.+^${}()|[]'' @ [CHR 0x5C]) then [CHR 0x5C, c] else [c])
               s)"

fun replaceAll :: "string \<Rightarrow> string \<Rightarrow> string \<Rightarrow> string" where
  "replaceAll pat rep [] = []"
| "replaceAll pat rep (c # cs) =
     (if pat \<noteq> [] \<and> prefix pat (c # cs)
      then rep @ replaceAll pat rep (drop (length pat - 1) cs)
      else c # replaceAll pat rep cs)"

definition regexSource :: "string \<Rightarrow> string" where
  "regexSource pattern =
     (let isDirectoryPattern = endsWith pattern ''/'';
          cleanPattern = (if isDirectoryPattern then butlast pattern else pattern);
          regexStr =
            replaceAll ''{{GLOBSTAR}}'' ''.*''
              (replaceAll ''?'' ''[^/]''
                (replaceAll ''*'' ''[^/]*''
                  (replaceAll ''**'' ''{{GLOBSTAR}}'' (escapeSpecial cleanPattern))));
          anchored =
            (if \<not> startsWith pattern ''/'' then ''(^|/)'' @ regexStr
             else ''^'' @ drop 2 regexStr)
      in if isDirectoryPattern then anchored @ ''(/|$)'' else anchored @ ''$'')"

definition matchesPattern ::
  "(string \<Rightarrow> string \<Rightarrow> bool option) \<Rightarrow> string \<Rightarrow> string \<Rightarrow> bool" where
  "matchesPattern regExpTest path pattern =
     (case regExpTest (regexSource pattern) path of None \<Rightarrow> False | Some b \<Rightarrow> b)"

definition isExcluded ::
  "(string \<Rightarrow> string \<Rightarrow> bool option) \<Rightarrow> McpIgnoreManager \<Rightarrow> string \<Rightarrow> bool" where
  "isExcluded regExpTest m path =
     (if \<not> enabled m then False
      else if path = ''.mcpignore'' then True
      else list_ex (\<lambda>pattern. matchesPattern regExpTest path pattern) (patterns m))"

text \<open>
  \<open>SecurityManager\<close>. \<open>normalizePath\<close> is a function of the host application and a
  parameter of the model.
\<close>

record SecurityManager =
  ignoreManager :: McpIgnoreManager
  readOnlyMode :: bool

definition validateRead ::
  "(string \<Rightarrow> string) \<Rightarrow> (string \<Rightarrow> string \<Rightarrow> bool option) \<Rightarrow> SecurityManager \<Rightarrow> string
     \<Rightarrow> error + string" where
  "validateRead normalizePath regExpTest s path =
     (let normalized = normalizePath path
      in if isExcluded regExpTest (ignoreManager s) normalized then Inl BlockedByMcpIgnore
         else Inr normalized)"

definition validateWrite ::
  "(string \<Rightarrow> string) \<Rightarrow> (string \<Rightarrow> string \<Rightarrow> bool option) \<Rightarrow> SecurityManager \<Rightarrow> string
     \<Rightarrow> error + string" where
  "validateWrite normalizePath regExpTest s path =
     (if readOnlyMode s then Inl ReadOnlyBlocked
      else (let normalized = normalizePath path
            in if isExcluded regExpTest (ignoreManager s) normalized
               then Inl BlockedByMcpIgnore
               else if normalized = ''.mcpignore'' then Inl CannotModifyMcpIgnore
               else Inr normalized))"

text \<open>
  Two stand-ins for the parameters, used where a statement needs closed terms and no
  pattern is consulted: an engine that takes every source for a syntax error, and a path
  that is already normal.
\<close>

definition rejectingRegExp :: "string \<Rightarrow> string \<Rightarrow> bool option" where
  "rejectingRegExp source subject = None"

definition normalPath :: "string \<Rightarrow> string" where
  "normalPath path = path"

text \<open>A security manager that blocks nothing: no rule file was loaded, writes are allowed.\<close>

definition openSecurity :: SecurityManager where
  "openSecurity = \<lparr>ignoreManager = initialIgnoreManager, readOnlyMode = False\<rparr>"

section \<open>Edit operations (tools/edit-tools)\<close>

text \<open>
  A handler takes the vault and returns the vault it leaves behind with its result: an
  error, or the data of the success payload. \<open>app.vault.modify\<close> replaces the text of
  the file. The line number of \<open>vault_edit_line\<close> is an integer; a missing or empty
  \<open>mode\<close> is \<open>replace\<close>, and so is every mode other than \<open>before\<close> and \<open>after\<close>.
\<close>

datatype success =
    LineEdited string int string nat
  | Patched string string string operation

definition vault_edit_line ::
  "(string \<Rightarrow> string) \<Rightarrow> (string \<Rightarrow> string \<Rightarrow> bool option) \<Rightarrow> SecurityManager \<Rightarrow> vault
     \<Rightarrow> string \<Rightarrow> int \<Rightarrow> string \<Rightarrow> string option \<Rightarrow> vault \<times> (error + success)" where
  "vault_edit_line normalizePath regExpTest security v pathArg lineNumber newContent
     modeArg =
     (case validateWrite normalizePath regExpTest security pathArg of
        Inl e \<Rightarrow> (v, Inl e)
      | Inr path \<Rightarrow>
          (let mode = (case modeArg of None \<Rightarrow> ''replace''
                       | Some m \<Rightarrow> if m = [] then ''replace'' else m)
           in case v path of
                Some (TFile content) \<Rightarrow>
                  (let lines = split content ''\<newline>''
                   in if lineNumber < 1 \<or> lineNumber > int (length lines) + 1
                      then (v, Inl (InvalidLineNumber lineNumber (length lines)))
                      else (let index = nat (lineNumber - 1);
                                newLines = split newContent ''\<newline>'';
                                lines' =
                                  (if mode = ''before'' then splice lines index 0 newLines
                                   else if mode = ''after''
                                   then splice lines (index + 1) 0 newLines
                                   else splice lines index 1 newLines)
                            in (v(path \<mapsto> TFile (join lines' ''\<newline>'')),
                                Inr (LineEdited path lineNumber mode (length newLines)))))
              | _ \<Rightarrow> (v, Inl (FileNotFound path))))"

definition vault_patch ::
  "(string \<Rightarrow> string) \<Rightarrow> (string \<Rightarrow> string \<Rightarrow> bool option) \<Rightarrow> SecurityManager \<Rightarrow> vault
     \<Rightarrow> string \<Rightarrow> string \<Rightarrow> string \<Rightarrow> operation \<Rightarrow> string \<Rightarrow> vault \<times> (error + success)" where
  "vault_patch normalizePath regExpTest security v pathArg targetType target operation
     patchContent =
     (case validateWrite normalizePath regExpTest security pathArg of
        Inl e \<Rightarrow> (v, Inl e)
      | Inr path \<Rightarrow>
          (case v path of
             Some (TFile content) \<Rightarrow>
               (case (if targetType = ''heading''
                      then patchHeading content target operation patchContent
                      else if targetType = ''block''
                      then patchBlock content target operation patchContent
                      else if targetType = ''frontmatter''
                      then patchFrontmatter content target operation patchContent
                      else Inl (UnknownTargetType targetType)) of
                  Inl e \<Rightarrow> (v, Inl e)
                | Inr newContent \<Rightarrow>
                    (v(path \<mapsto> TFile newContent),
                     Inr (Patched path targetType target operation)))
           | _ \<Rightarrow> (v, Inl (FileNotFound path))))"

section \<open>Session router\<close>

text \<open>
  \<open>handleMcpRequest\<close>. The table \<open>transports\<close> maps a session identifier to its
  transport, which the model names by the identifier it was created with. The header
  \<open>mcp-session-id\<close> is \<open>None\<close> when absent; JavaScript's \<open>sessionId && ...\<close> is false
  for an absent header and for an empty one. \<open>newSessionId\<close> is what \<open>randomUUID()\<close>
  returns and \<open>connectOk\<close> says that \<open>mcpServer.connect\<close> does not throw.

  \<open>Handled t\<close> hands the request to the transport \<open>t\<close>; \<open>ReinitializeError\<close> is the
  response with status 400 and the JSON-RPC error -32000 "Session expired or invalid.
  Please re-initialize."; \<open>InternalError\<close> is the response with status 500 and the error
  -32603 of the \<open>catch\<close> block.
\<close>

datatype response =
    Handled string
  | ReinitializeError
  | InternalError

type_synonym transports = "string \<rightharpoonup> string"

definition truthy :: "string option \<Rightarrow> bool" where
  "truthy sessionId = (case sessionId of None \<Rightarrow> False | Some s \<Rightarrow> s \<noteq> [])"

text \<open>\<open>this.transports.has(sessionId)\<close>, for a header that is present.\<close>

definition has :: "transports \<Rightarrow> string option \<Rightarrow> bool" where
  "has ts sessionId = (case sessionId of None \<Rightarrow> False | Some s \<Rightarrow> ts s \<noteq> None)"

definition handleMcpRequest ::
  "transports \<Rightarrow> string option \<Rightarrow> string \<Rightarrow> bool \<Rightarrow> transports \<times> response" where
  "handleMcpRequest ts sessionId newSessionId connectOk =
     (if truthy sessionId \<and> has ts sessionId
      then (ts, Handled (the (ts (the sessionId))))
      else if truthy sessionId \<and> \<not> has ts sessionId
      then (ts, ReinitializeError)
      else if connectOk
      then (ts(newSessionId \<mapsto> newSessionId), Handled newSessionId)
      else (ts, InternalError))"

section \<open>Properties of split and join\<close>

lemma splitAcc_not_Nil: "splitAcc sep acc s \<noteq> []"
  by (induction sep acc s rule: splitAcc.induct) auto

lemma split_not_Nil: "split s sep \<noteq> []"
  by (simp add: split_def splitAcc_not_Nil)

lemma join_Cons: "xs \<noteq> [] \<Longrightarrow> join (x # xs) sep = x @ sep @ join xs sep"
  by (cases xs) simp_all

lemma join_append:
  "xs \<noteq> [] \<Longrightarrow> ys \<noteq> [] \<Longrightarrow> join (xs @ ys) sep = join xs sep @ sep @ join ys sep"
proof (induction xs sep rule: join.induct)
  case (2 x sep)
  then show ?case by (simp add: join_Cons)
qed simp_all

lemma prefix_drop_rest:
  assumes "sep \<noteq> []" and "prefix sep (c # cs)"
  shows "sep @ drop (length sep - 1) cs = c # cs"
proof -
  from assms(2) obtain r where r: "c # cs = sep @ r" by (auto simp: prefix_def)
  then have "drop (length sep) (c # cs) = r" by simp
  moreover from assms(1) have "drop (length sep) (c # cs) = drop (length sep - 1) cs"
    by (cases sep) simp_all
  ultimately show ?thesis using r by simp
qed

lemma join_splitAcc: "join (splitAcc sep acc s) sep = acc @ s"
proof (induction sep acc s rule: splitAcc.induct)
  case (1 sep acc)
  then show ?case by simp
next
  case (2 sep acc c cs)
  show ?case
  proof (cases "sep \<noteq> [] \<and> prefix sep (c # cs)")
    case True
    from True have "join (splitAcc sep acc (c # cs)) sep =
        acc @ sep @ join (splitAcc sep [] (drop (length sep - 1) cs)) sep"
      by (simp add: join_Cons splitAcc_not_Nil)
    also have "\<dots> = acc @ sep @ drop (length sep - 1) cs"
      using 2 True by simp
    also have "\<dots> = acc @ c # cs"
      using prefix_drop_rest [of sep c cs] True by simp
    finally show ?thesis .
  next
    case False
    with 2 show ?thesis by auto
  qed
qed

lemma join_split: "join (split s sep) sep = s"
  by (simp add: split_def join_splitAcc)

lemma splitAcc_char_append:
  "splitAcc [c] acc (a @ c # b) = splitAcc [c] acc a @ splitAcc [c] [] b"
  by (induction a arbitrary: acc) auto

lemma split_append_newline:
  "split (a @ CHR ''\<newline>'' # b) ''\<newline>'' = split a ''\<newline>'' @ split b ''\<newline>''"
  using splitAcc_char_append [of "CHR ''\<newline>''" "[]" a b] by (simp add: split_def)

lemma splitAcc_char_free: "c \<notin> set s \<Longrightarrow> splitAcc [c] acc s = [acc @ s]"
  by (induction s arbitrary: acc) simp_all

lemma splitAcc_char_lines:
  "l \<in> set (splitAcc [c] acc s) \<Longrightarrow> c \<notin> set acc \<Longrightarrow> c \<notin> set l"
proof (induction s arbitrary: acc)
  case Nil
  then show ?case by simp
next
  case (Cons x s)
  show ?case
  proof (cases "x = c")
    case True
    with Cons.prems have "l = acc \<or> l \<in> set (splitAcc [c] [] s)" by simp
    then show ?thesis
    proof
      assume "l = acc"
      with Cons.prems(2) show ?thesis by simp
    next
      assume "l \<in> set (splitAcc [c] [] s)"
      then show ?thesis by (rule Cons.IH) simp
    qed
  next
    case False
    with Cons.prems have "l \<in> set (splitAcc [c] (acc @ [x]) s)" by simp
    then show ?thesis by (rule Cons.IH) (use False Cons.prems(2) in auto)
  qed
qed

lemma split_lines_newline_free: "l \<in> set (split s ''\<newline>'') \<Longrightarrow> CHR ''\<newline>'' \<notin> set l"
  using splitAcc_char_lines [of l "CHR ''\<newline>''" "[]" s] by (simp add: split_def)

lemma split_newline_free: "CHR ''\<newline>'' \<notin> set s \<Longrightarrow> split s ''\<newline>'' = [s]"
  using splitAcc_char_free [of "CHR ''\<newline>''" s "[]"] by (simp add: split_def)

lemma split_join_concat:
  "xs \<noteq> [] \<Longrightarrow> split (join xs ''\<newline>'') ''\<newline>'' = concat (map (\<lambda>x. split x ''\<newline>'') xs)"
proof (induction xs "''\<newline>''" rule: join.induct)
  case (3 x y ys)
  then show ?case by (simp add: split_append_newline)
qed simp_all

lemma concat_split_lines:
  "\<forall>l\<in>set ls. CHR ''\<newline>'' \<notin> set l \<Longrightarrow> concat (map (\<lambda>x. split x ''\<newline>'') ls) = ls"
  by (induction ls) (simp_all add: split_newline_free)

section \<open>Properties of the pattern matcher\<close>

lemma indexOf_empty: "indexOf content [] = Some 0"
  by (cases content) (simp_all add: indexOf_def indexOfFrom_def)

lemma slideWindow_threshold:
  assumes "slideWindow content ns t w is best = Some m"
    and "\<And>b. best = Some b \<Longrightarrow> t \<le> similarity b"
  shows "t \<le> similarity m"
  using assms
proof (induction "is" arbitrary: best)
  case Nil
  then show ?case by simp
next
  case (Cons i "is")
  let ?sim = "similarityRatio ns (normalizeWhitespace (slice content i (i + w)))"
  let ?found = "\<lparr>matchText = slice content i (i + w), start = i, endPos = i + w,
                  similarity = ?sim\<rparr>"
  show ?case
  proof (cases "?sim \<ge> t \<and> (case best of None \<Rightarrow> True | Some b \<Rightarrow> ?sim > similarity b)")
    case True
    show ?thesis
    proof (cases "?sim \<ge> 95 / 100")
      case True
      with \<open>?sim \<ge> t \<and> _\<close> Cons.prems(1) have "m = ?found"
        by (simp add: Let_def)
      with \<open>?sim \<ge> t \<and> _\<close> show ?thesis by simp
    next
      case False
      with True Cons.prems(1)
      have "slideWindow content ns t w is (Some ?found) = Some m"
        by (simp add: Let_def)
      moreover have "\<And>b. Some ?found = Some b \<Longrightarrow> t \<le> similarity b"
        using True by auto
      ultimately show ?thesis by (rule Cons.IH)
    qed
  next
    case False
    with Cons.prems(1) have "slideWindow content ns t w is best = Some m"
      by (simp add: Let_def)
    then show ?thesis using Cons.prems(2) by (rule Cons.IH)
  qed
qed

lemma tryWindowSizes_threshold:
  assumes "tryWindowSizes content ns t ws best = Some m"
    and "\<And>b. best = Some b \<Longrightarrow> t \<le> similarity b"
  shows "t \<le> similarity m"
  using assms
proof (induction ws arbitrary: best)
  case Nil
  then show ?case by simp
next
  case (Cons w ws)
  show ?case
  proof (cases "w \<le> 0 \<or> w > length content")
    case True
    with Cons.prems(1) have "tryWindowSizes content ns t ws best = Some m" by simp
    then show ?thesis using Cons.prems(2) by (rule Cons.IH)
  next
    case False
    let ?best' = "slideWindow content ns t w [0..<Suc (length content - w)] best"
    have inv: "t \<le> similarity b" if "?best' = Some b" for b
      using that Cons.prems(2) by (rule slideWindow_threshold)
    show ?thesis
    proof (cases "case ?best' of None \<Rightarrow> False | Some b \<Rightarrow> similarity b \<ge> 95 / 100")
      case True
      with False Cons.prems(1) have "?best' = Some m" by (simp add: Let_def)
      then show ?thesis by (rule inv)
    next
      case stop: False
      with False Cons.prems(1) have "tryWindowSizes content ns t ws ?best' = Some m"
        by (simp add: Let_def)
      then show ?thesis using inv by (rule Cons.IH)
    qed
  qed
qed

text \<open>
  Claim C3, as amended. Whenever \<open>findBestMatch\<close> returns a candidate for a threshold
  of at most 1, the similarity of the candidate is at least the threshold: a window of
  the approximate search is kept only when it reaches the threshold, and the exact
  substring found first has similarity 1.
\<close>

theorem findBestMatch_similarity_ge_threshold:
  assumes "findBestMatch content searchText t = Some m" and "t \<le> 1"
  shows "t \<le> similarity m"
proof (cases "indexOf content searchText")
  case (Some exactIndex)
  with assms(1) have "similarity m = 1" by (auto simp: findBestMatch_def)
  with assms(2) show ?thesis by simp
next
  case None
  with assms(1)
  have "tryWindowSizes content (normalizeWhitespace searchText) t
          (windowSizes (length (normalizeWhitespace searchText))) None = Some m"
    by (simp add: findBestMatch_def Let_def)
  then show ?thesis by (rule tryWindowSizes_threshold) simp
qed

theorem findBestMatch_similarity_ge_threshold_witness:
  "findBestMatch ''abxd'' ''abcd'' (7 / 10) =
     Some \<lparr>matchText = ''abxd'', start = 0, endPos = 4, similarity = 3 / 4\<rparr>
   \<and> (7 / 10 :: real) \<le> 1
   \<and> (7 / 10 :: real) \<le>
       similarity \<lparr>matchText = ''abxd'', start = 0, endPos = 4, similarity = 3 / 4\<rparr>"
proof -
  have found: "findBestMatch ''abxd'' ''abcd'' (7 / 10) =
      Some \<lparr>matchText = ''abxd'', start = 0, endPos = 4, similarity = 3 / 4\<rparr>"
    by code_simp
  have "(7 / 10 :: real) \<le> 1" by simp
  with found show ?thesis
    using findBestMatch_similarity_ge_threshold [OF found] by simp
qed

text \<open>
  Claim C3 as stated fails for a threshold above 1: the exact substring is returned with
  similarity 1 whatever the threshold is.
\<close>

theorem findBestMatch_exact_below_threshold:
  "map_option similarity (findBestMatch ''abc'' ''abc'' 2) = Some 1 \<and> \<not> (2 :: real) \<le> 1"
  by (simp add: findBestMatch_def indexOf_def indexOfFrom_def)

text \<open>
  Claim C10. For every content and every threshold, an empty search text is found by
  the exact search at position 0: the candidate returned is the empty match with
  \<open>start = 0\<close>, \<open>end = 0\<close> and similarity 1.
\<close>

theorem findBestMatch_empty_target:
  "findBestMatch content [] threshold =
     Some \<lparr>matchText = [], start = 0, endPos = 0, similarity = 1\<rparr>"
  by (simp add: findBestMatch_def indexOf_empty)

section \<open>Properties of the line-indexed edit\<close>

lemma join_split_append:
  "join (split a sep @ split b sep) sep = a @ sep @ b"
  by (simp add: join_append split_not_Nil join_split)

lemma splice_at_end: "splice xs (length xs) n items = xs @ items"
  by (simp add: splice_def)

text \<open>
  Claim C5. For a document of \<open>lineCount\<close> lines that may be written, the
  line-indexed edit succeeds exactly for \<open>1 \<le> lineNumber \<le> lineCount + 1\<close> and
  otherwise returns the invalid-line-number error and leaves the vault as it was; at
  \<open>lineNumber = lineCount + 1\<close> the modes \<open>before\<close> and \<open>replace\<close> write the old text,
  a line break and the new content; \<open>lineNumber = 0\<close> and \<open>lineNumber = lineCount + 2\<close>
  are rejected without a write.
\<close>

theorem vault_edit_line_bounds:
  assumes "validateWrite normalizePath regExpTest security pathArg = Inr path"
    and "v path = Some (TFile content)"
    and "lineCount = length (split content ''\<newline>'')"
  shows "(1 \<le> lineNumber \<and> lineNumber \<le> int lineCount + 1 \<longrightarrow>
           \<not> isl (snd (vault_edit_line normalizePath regExpTest security v pathArg
                          lineNumber newContent modeArg)))
       \<and> (\<not> (1 \<le> lineNumber \<and> lineNumber \<le> int lineCount + 1) \<longrightarrow>
           vault_edit_line normalizePath regExpTest security v pathArg
             lineNumber newContent modeArg
           = (v, Inl (InvalidLineNumber lineNumber lineCount)))
       \<and> (modeArg = Some ''before'' \<or> modeArg = Some ''replace'' \<longrightarrow>
           fst (vault_edit_line normalizePath regExpTest security v pathArg
                  (int lineCount + 1) newContent modeArg)
           = v(path \<mapsto> TFile (content @ ''\<newline>'' @ newContent)))
       \<and> vault_edit_line normalizePath regExpTest security v pathArg 0 newContent modeArg
           = (v, Inl (InvalidLineNumber 0 lineCount))
       \<and> vault_edit_line normalizePath regExpTest security v pathArg
             (int lineCount + 2) newContent modeArg
           = (v, Inl (InvalidLineNumber (int lineCount + 2) lineCount))"
proof (intro conjI impI)
  assume "1 \<le> lineNumber \<and> lineNumber \<le> int lineCount + 1"
  then show "\<not> isl (snd (vault_edit_line normalizePath regExpTest security v pathArg
                          lineNumber newContent modeArg))"
    using assms by (simp add: vault_edit_line_def Let_def)
next
  assume "\<not> (1 \<le> lineNumber \<and> lineNumber \<le> int lineCount + 1)"
  then show "vault_edit_line normalizePath regExpTest security v pathArg
             lineNumber newContent modeArg
           = (v, Inl (InvalidLineNumber lineNumber lineCount))"
    using assms by (auto simp: vault_edit_line_def Let_def)
next
  assume "modeArg = Some ''before'' \<or> modeArg = Some ''replace''"
  moreover have "nat (int lineCount + 1 - 1) = length (split content ''\<newline>'')"
    using assms(3) by simp
  ultimately show "fst (vault_edit_line normalizePath regExpTest security v pathArg
                  (int lineCount + 1) newContent modeArg)
           = v(path \<mapsto> TFile (content @ ''\<newline>'' @ newContent))"
    using assms join_split_append [of content "''\<newline>''" newContent]
    by (auto simp: vault_edit_line_def Let_def splice_at_end)
next
  show "vault_edit_line normalizePath regExpTest security v pathArg 0 newContent modeArg
           = (v, Inl (InvalidLineNumber 0 lineCount))"
    using assms by (simp add: vault_edit_line_def Let_def)
next
  show "vault_edit_line normalizePath regExpTest security v pathArg
             (int lineCount + 2) newContent modeArg
           = (v, Inl (InvalidLineNumber (int lineCount + 2) lineCount))"
    using assms by (simp add: vault_edit_line_def Let_def)
qed

theorem vault_edit_line_bounds_witness:
  "validateWrite normalPath rejectingRegExp openSecurity ''notes/a.md'' = Inr ''notes/a.md''
   \<and> [''notes/a.md'' \<mapsto> TFile ''one\<newline>two''] ''notes/a.md'' = Some (TFile ''one\<newline>two'')
   \<and> (2 :: nat) = length (split ''one\<newline>two'' ''\<newline>'')
   \<and> \<not> isl (snd (vault_edit_line normalPath rejectingRegExp openSecurity
                   [''notes/a.md'' \<mapsto> TFile ''one\<newline>two''] ''notes/a.md'' 1 ''zero'' (Some ''before'')))
   \<and> fst (vault_edit_line normalPath rejectingRegExp openSecurity
            [''notes/a.md'' \<mapsto> TFile ''one\<newline>two''] ''notes/a.md'' 3 ''three\<newline>four'' (Some ''before''))
       = [''notes/a.md'' \<mapsto> TFile ''one\<newline>two\<newline>three\<newline>four'']
   \<and> vault_edit_line normalPath rejectingRegExp openSecurity
         [''notes/a.md'' \<mapsto> TFile ''one\<newline>two''] ''notes/a.md'' 0 ''zero'' (Some ''before'')
       = ([''notes/a.md'' \<mapsto> TFile ''one\<newline>two''], Inl (InvalidLineNumber 0 2))
   \<and> vault_edit_line normalPath rejectingRegExp openSecurity
         [''notes/a.md'' \<mapsto> TFile ''one\<newline>two''] ''notes/a.md'' 4 ''zero'' (Some ''before'')
       = ([''notes/a.md'' \<mapsto> TFile ''one\<newline>two''], Inl (InvalidLineNumber 4 2))"
proof -
  have a: "validateWrite normalPath rejectingRegExp openSecurity ''notes/a.md'' = Inr ''notes/a.md''"
    by (simp add: validateWrite_def openSecurity_def initialIgnoreManager_def isExcluded_def
        normalPath_def)
  have f: "[''notes/a.md'' \<mapsto> TFile ''one\<newline>two''] ''notes/a.md'' = Some (TFile ''one\<newline>two'')"
    by simp
  have n: "(2 :: nat) = length (split ''one\<newline>two'' ''\<newline>'')"
    by (simp add: split_def)
  note t = vault_edit_line_bounds
    [where v = "[''notes/a.md'' \<mapsto> TFile ''one\<newline>two'']" and path = "''notes/a.md''", OF a f n]
  show ?thesis
    using a f n t [of 1 "''zero''" "Some ''before''"]
      t [of 3 "''three\<newline>four''" "Some ''before''"]
      t [of 0 "''zero''" "Some ''before''"]
    by simp
qed

section \<open>Properties of the structural patch\<close>

text \<open>
  A heading path resolves only when its last segment is the trimmed title of a heading
  of the document; so a path whose last segment names no heading does not resolve.
\<close>

lemma findHeading_matches_last:
  assumes "findHeading hs cur hi ls i = Some (ts, te)"
  shows "\<exists>l\<in>set ls. \<exists>level title. headingMatch l = Some (level, title) \<and> trim title = last hs"
  using assms
proof (induction ls arbitrary: cur hi i)
  case Nil
  then show ?case by simp
next
  case (Cons x ls)
  show ?case
  proof (cases "\<exists>level title. headingMatch x = Some (level, title) \<and> hi < length hs
                  \<and> trim title = hs ! hi \<and> cur < level")
    case True
    then obtain level title where
      m: "headingMatch x = Some (level, title)" "hi < length hs" "trim title = hs ! hi"
        "cur < level"
      by blast
    show ?thesis
    proof (cases "Suc hi = length hs")
      case True
      with m(2) have "hs ! hi = last hs"
        by (metis diff_Suc_1 last_conv_nth length_0_conv nat.distinct(1))
      with m show ?thesis by auto
    next
      case False
      with m Cons.prems have "findHeading hs level (Suc hi) ls (Suc i) = Some (ts, te)"
        by simp
      from Cons.IH [OF this] show ?thesis by auto
    qed
  next
    case False
    with Cons.prems have "findHeading hs cur hi ls (Suc i) = Some (ts, te)"
      by (auto split: option.splits if_splits)
    from Cons.IH [OF this] show ?thesis by auto
  qed
qed

lemma resolveHeading_absent:
  assumes "\<forall>l\<in>set (split content ''\<newline>''). case headingMatch l of None \<Rightarrow> True
             | Some (level, title) \<Rightarrow> trim title \<noteq> last (split headingPath ''::'')"
  shows "resolveHeading content headingPath = None"
proof (cases "resolveHeading content headingPath")
  case None
  then show ?thesis .
next
  case (Some p)
  obtain ts te where "p = (ts, te)" by (cases p)
  with Some have "findHeading (split headingPath ''::'') 0 0 (split content ''\<newline>'') 0
      = Some (ts, te)"
    by (simp add: resolveHeading_def)
  from findHeading_matches_last [OF this] obtain l level title where
    "l \<in> set (split content ''\<newline>'')" "headingMatch l = Some (level, title)"
    "trim title = last (split headingPath ''::'')"
    by blast
  with assms show ?thesis by fastforce
qed

text \<open>
  Claim C4. When the heading path does not resolve in a document that may be written,
  the structural patch returns the heading-not-found error and the vault, and with it
  the text of the document, is what it was before the call.
\<close>

theorem vault_patch_heading_not_found:
  assumes "validateWrite normalizePath regExpTest security pathArg = Inr path"
    and "v path = Some (TFile content)"
    and "resolveHeading content headingPath = None"
  shows "vault_patch normalizePath regExpTest security v pathArg ''heading'' headingPath
           operation patchContent
         = (v, Inl (HeadingNotFound headingPath))"
  using assms by (simp add: vault_patch_def patchHeading_def)

theorem vault_patch_heading_not_found_witness:
  "validateWrite normalPath rejectingRegExp openSecurity ''todo.md'' = Inr ''todo.md''
   \<and> [''todo.md'' \<mapsto> TFile ''# Tasks\<newline>- water plants\<newline>## Done\<newline>- laundry'']
        ''todo.md'' = Some (TFile ''# Tasks\<newline>- water plants\<newline>## Done\<newline>- laundry'')
   \<and> resolveHeading ''# Tasks\<newline>- water plants\<newline>## Done\<newline>- laundry'' ''Tasks::Open'' = None
   \<and> vault_patch normalPath rejectingRegExp openSecurity
         [''todo.md'' \<mapsto> TFile ''# Tasks\<newline>- water plants\<newline>## Done\<newline>- laundry'']
         ''todo.md'' ''heading'' ''Tasks::Open'' Append ''- new''
       = ([''todo.md'' \<mapsto> TFile ''# Tasks\<newline>- water plants\<newline>## Done\<newline>- laundry''],
          Inl (HeadingNotFound ''Tasks::Open''))"
proof -
  have a: "validateWrite normalPath rejectingRegExp openSecurity ''todo.md'' = Inr ''todo.md''"
    by (simp add: validateWrite_def openSecurity_def initialIgnoreManager_def isExcluded_def
        normalPath_def)
  have f: "[''todo.md'' \<mapsto> TFile ''# Tasks\<newline>- water plants\<newline>## Done\<newline>- laundry'']
        ''todo.md'' = Some (TFile ''# Tasks\<newline>- water plants\<newline>## Done\<newline>- laundry'')"
    by simp
  have r: "resolveHeading ''# Tasks\<newline>- water plants\<newline>## Done\<newline>- laundry'' ''Tasks::Open'' = None"
    by code_simp
  show ?thesis
    using a f r vault_patch_heading_not_found
      [where v = "[''todo.md'' \<mapsto> TFile ''# Tasks\<newline>- water plants\<newline>## Done\<newline>- laundry'']"
        and path = "''todo.md''", OF a f r, of Append "''- new''"]
    by simp
qed

text \<open>
  Claim C7. For a document that does not begin with the frontmatter delimiter, patching
  the field \<open>priority\<close> with \<open>replace\<close> and \<open>high\<close> yields a frontmatter block whose only
  line is \<open>priority: high\<close>, an empty line, and then the document as it was.
\<close>

theorem patchFrontmatter_creates_block:
  assumes "\<not> startsWith content ''---''"
  shows "patchFrontmatter content ''priority'' Replace ''high''
         = Inr (''---\<newline>priority: high\<newline>---\<newline>\<newline>'' @ content)"
  using assms by (simp add: patchFrontmatter_def)

theorem patchFrontmatter_creates_block_witness:
  "\<not> startsWith ''# Plan\<newline>body'' ''---''
   \<and> patchFrontmatter ''# Plan\<newline>body'' ''priority'' Replace ''high''
       = Inr ''---\<newline>priority: high\<newline>---\<newline>\<newline># Plan\<newline>body''"
proof -
  have n: "\<not> startsWith ''# Plan\<newline>body'' ''---''" by (simp add: startsWith_def)
  from n show ?thesis using patchFrontmatter_creates_block [OF n] by simp
qed

lemma findFieldLine_None:
  "findFieldLine field ls i = None \<longleftrightarrow> (\<forall>l\<in>set ls. \<not> fieldPatternTest field l)"
  by (induction ls arbitrary: i) auto

lemma findFieldLine_Some:
  "findFieldLine field ls i = Some k \<Longrightarrow>
   \<exists>pre l post. ls = pre @ l # post \<and> k = i + length pre
     \<and> (\<forall>x\<in>set pre. \<not> fieldPatternTest field x) \<and> fieldPatternTest field l"
proof (induction ls arbitrary: i)
  case Nil
  then show ?case by simp
next
  case (Cons a ls)
  show ?case
  proof (cases "fieldPatternTest field a")
    case True
    with Cons.prems have "k = i" by simp
    with True have "a # ls = [] @ a # ls \<and> k = i + length ([] :: string list)
      \<and> (\<forall>x\<in>set []. \<not> fieldPatternTest field x) \<and> fieldPatternTest field a"
      by simp
    then show ?thesis by blast
  next
    case False
    with Cons.prems have "findFieldLine field ls (Suc i) = Some k" by simp
    from Cons.IH [OF this] obtain pre l post where
      "ls = pre @ l # post" "k = Suc i + length pre"
      "\<forall>x\<in>set pre. \<not> fieldPatternTest field x" "fieldPatternTest field l"
      by blast
    with False have "a # ls = (a # pre) @ l # post \<and> k = i + length (a # pre)
      \<and> (\<forall>x\<in>set (a # pre). \<not> fieldPatternTest field x) \<and> fieldPatternTest field l"
      by simp
    then show ?thesis by blast
  qed
qed

lemma drop_prefix_length: "length a = n \<Longrightarrow> drop n (a @ b) = b"
  by simp

lemma frontmatter_parts:
  assumes "content = ''---\<newline>'' @ fm @ ''---'' @ rest"
  shows "startsWith content ''---''"
    and "slice content 4 (4 + length fm) = fm"
    and "drop (4 + length fm + 3) content = rest"
proof -
  show "startsWith content ''---''" using assms by (simp add: startsWith_def)
  show "slice content 4 (4 + length fm) = fm" using assms by (simp add: slice_def)
  have "drop (4 + length fm + 3) ((''---\<newline>'' @ fm @ ''---'') @ rest) = rest"
    by (rule drop_prefix_length) simp
  with assms show "drop (4 + length fm + 3) content = rest" by simp
qed

text \<open>
  Claim C8. Let a document consist of the opening delimiter line, the frontmatter text
  \<open>fm\<close>, the closing delimiter (the first \<open>---\<close> after the opening line) and the
  rest, and let \<open>status: active\<close> be a line of \<open>fm\<close>. Patching the field \<open>status\<close> with
  \<open>replace\<close> and \<open>done\<close> rewrites the line of the field, the first line that begins with
  \<open>status:\<close>, to \<open>status: done\<close>; the lines before and after it, both delimiters and
  the rest of the document stay as they were.
\<close>

theorem patchFrontmatter_replace_status:
  assumes "content = ''---\<newline>'' @ fm @ ''---'' @ rest"
    and "indexOfFrom content ''---'' 3 = Some (4 + length fm)"
    and "''status: active'' \<in> set (split fm ''\<newline>'')"
  shows "\<exists>pre l post.
           split fm ''\<newline>'' = pre @ l # post
         \<and> (\<forall>x\<in>set pre. \<not> startsWith x ''status:'')
         \<and> startsWith l ''status:''
         \<and> patchFrontmatter content ''status'' Replace ''done''
             = Inr (''---\<newline>'' @ join (pre @ ''status: done'' # post) ''\<newline>'' @ ''---'' @ rest)"
proof -
  have "fieldPatternTest ''status'' ''status: active''"
    by (simp add: fieldPatternTest_def startsWith_def)
  with assms(3) have "findFieldLine ''status'' (split fm ''\<newline>'') 0 \<noteq> None"
    by (auto simp: findFieldLine_None)
  then obtain k where k: "findFieldLine ''status'' (split fm ''\<newline>'') 0 = Some k"
    by blast
  from findFieldLine_Some [OF k] obtain pre l post where
    parts: "split fm ''\<newline>'' = pre @ l # post" "k = length pre"
      "\<forall>x\<in>set pre. \<not> fieldPatternTest ''status'' x" "fieldPatternTest ''status'' l"
    by auto
  have upd: "(split fm ''\<newline>'')[k := ''status: done''] = pre @ ''status: done'' # post"
    using parts(1,2) by simp
  have "patchFrontmatter content ''status'' Replace ''done''
          = Inr (''---\<newline>'' @ join ((split fm ''\<newline>'')[k := ''status: done'']) ''\<newline>'' @ ''---'' @ rest)"
    using frontmatter_parts [OF assms(1)] assms(2) k
    by (simp add: patchFrontmatter_def Let_def)
  with upd parts show ?thesis
    by (auto simp: fieldPatternTest_def)
qed

theorem patchFrontmatter_replace_status_witness:
  "''---\<newline>title: Plan\<newline>status: active\<newline>tags: x\<newline>---\<newline>Body''
     = ''---\<newline>'' @ ''title: Plan\<newline>status: active\<newline>tags: x\<newline>'' @ ''---'' @ ''\<newline>Body''
   \<and> indexOfFrom ''---\<newline>title: Plan\<newline>status: active\<newline>tags: x\<newline>---\<newline>Body'' ''---'' 3
       = Some (4 + length ''title: Plan\<newline>status: active\<newline>tags: x\<newline>'')
   \<and> ''status: active'' \<in> set (split ''title: Plan\<newline>status: active\<newline>tags: x\<newline>'' ''\<newline>'')
   \<and> (\<exists>pre l post.
         split ''title: Plan\<newline>status: active\<newline>tags: x\<newline>'' ''\<newline>'' = pre @ l # post
       \<and> (\<forall>x\<in>set pre. \<not> startsWith x ''status:'')
       \<and> startsWith l ''status:''
       \<and> patchFrontmatter ''---\<newline>title: Plan\<newline>status: active\<newline>tags: x\<newline>---\<newline>Body''
             ''status'' Replace ''done''
           = Inr (''---\<newline>'' @ join (pre @ ''status: done'' # post) ''\<newline>'' @ ''---'' @ ''\<newline>Body''))
   \<and> patchFrontmatter ''---\<newline>title: Plan\<newline>status: active\<newline>tags: x\<newline>---\<newline>Body''
         ''status'' Replace ''done''
       = Inr ''---\<newline>title: Plan\<newline>status: done\<newline>tags: x\<newline>---\<newline>Body''"
proof -
  have c: "''---\<newline>title: Plan\<newline>status: active\<newline>tags: x\<newline>---\<newline>Body''
     = ''---\<newline>'' @ ''title: Plan\<newline>status: active\<newline>tags: x\<newline>'' @ ''---'' @ ''\<newline>Body''"
    by simp
  have i: "indexOfFrom ''---\<newline>title: Plan\<newline>status: active\<newline>tags: x\<newline>---\<newline>Body'' ''---'' 3
       = Some (4 + length ''title: Plan\<newline>status: active\<newline>tags: x\<newline>'')"
    by code_simp
  have "split ''title: Plan\<newline>status: active\<newline>tags: x\<newline>'' ''\<newline>''
       = [''title: Plan'', ''status: active'', ''tags: x'', []]"
    by code_simp
  then have m: "''status: active'' \<in> set (split ''title: Plan\<newline>status: active\<newline>tags: x\<newline>'' ''\<newline>'')"
    by simp
  have r: "patchFrontmatter ''---\<newline>title: Plan\<newline>status: active\<newline>tags: x\<newline>---\<newline>Body''
         ''status'' Replace ''done''
       = Inr ''---\<newline>title: Plan\<newline>status: done\<newline>tags: x\<newline>---\<newline>Body''"
    by code_simp
  show ?thesis
    by (intro conjI) (rule c i m r patchFrontmatter_replace_status [OF c i m])+
qed

lemma findEnd_ge: "j \<le> findEnd level ls j"
proof (induction ls arbitrary: j)
  case Nil
  then show ?case by simp
next
  case (Cons a ls)
  from Cons.IH [of "Suc j"] show ?case
    by (simp split: option.splits)
qed

lemma findEnd_append:
  assumes "\<forall>l\<in>set xs. case nextHeading l of None \<Rightarrow> True | Some n \<Rightarrow> level < n"
  shows "findEnd level (xs @ ys) j = findEnd level ys (j + length xs)"
  using assms
proof (induction xs arbitrary: j)
  case Nil
  then show ?case by simp
next
  case (Cons a xs)
  then have "findEnd level (xs @ ys) (Suc j) = findEnd level ys (Suc j + length xs)"
    by simp
  with Cons.prems show ?case
    by (auto split: option.splits)
qed

lemma findEnd_stop: "findEnd level (drop (findEnd level ls j - j) ls) j' = j'"
proof (induction ls arbitrary: j)
  case Nil
  then show ?case by simp
next
  case (Cons a ls)
  show ?case
  proof (cases "case nextHeading a of None \<Rightarrow> False | Some n \<Rightarrow> n \<le> level")
    case True
    then have "findEnd level (a # ls) j = j" by (simp split: option.splits)
    with True show ?thesis by (simp split: option.splits)
  next
    case False
    then have step: "findEnd level (a # ls) j = findEnd level ls (Suc j)"
      by (simp split: option.splits)
    have "Suc j \<le> findEnd level ls (Suc j)" by (rule findEnd_ge)
    then have "findEnd level ls (Suc j) - j = Suc (findEnd level ls (Suc j) - Suc j)"
      by simp
    with step Cons.IH [of "Suc j"] show ?thesis by simp
  qed
qed

lemma findHeading_step:
  "(\<exists>level title. headingMatch a = Some (level, title)
      \<and> (\<forall>xs i. findHeading hs cur hi (a # xs) i = Some (i, findEnd level xs (Suc i))))
   \<or> (\<exists>cur' hi'. \<forall>xs i. findHeading hs cur hi (a # xs) i = findHeading hs cur' hi' xs (Suc i))"
proof (cases "headingMatch a")
  case None
  then have "\<forall>xs i. findHeading hs cur hi (a # xs) i = findHeading hs cur hi xs (Suc i)"
    by simp
  then show ?thesis by blast
next
  case (Some p)
  obtain level title where p: "p = (level, title)" by (cases p)
  show ?thesis
  proof (cases "hi < length hs \<and> trim title = hs ! hi \<and> level > cur")
    case True
    show ?thesis
    proof (cases "Suc hi = length hs")
      case last: True
      with True Some p
      have "\<forall>xs i. findHeading hs cur hi (a # xs) i = Some (i, findEnd level xs (Suc i))"
        by simp
      with Some p show ?thesis by blast
    next
      case False
      with True Some p
      have "\<forall>xs i. findHeading hs cur hi (a # xs) i = findHeading hs level (Suc hi) xs (Suc i)"
        by simp
      then show ?thesis by blast
    qed
  next
    case False
    with Some p
    have "\<forall>xs i. findHeading hs cur hi (a # xs) i = findHeading hs cur hi xs (Suc i)"
      by auto
    then show ?thesis by blast
  qed
qed

lemma findHeading_prefix:
  assumes "findHeading hs cur hi ls i = Some (ts, te)"
  shows "\<exists>k level title. ts = i + k \<and> k < length ls
           \<and> headingMatch (ls ! k) = Some (level, title)
           \<and> te = findEnd level (drop (Suc k) ls) (Suc ts)
           \<and> (\<forall>rest. findHeading hs cur hi (take (Suc k) ls @ rest) i
                        = Some (ts, findEnd level rest (Suc ts)))"
  using assms
proof (induction ls arbitrary: cur hi i)
  case Nil
  then show ?case by simp
next
  case (Cons a ls)
  from findHeading_step [of a hs cur hi] show ?case
  proof (elim disjE exE conjE)
    fix level title
    assume m: "headingMatch a = Some (level, title)"
      and f: "\<forall>xs i. findHeading hs cur hi (a # xs) i = Some (i, findEnd level xs (Suc i))"
    from f have "findHeading hs cur hi (a # ls) i = Some (i, findEnd level ls (Suc i))"
      by blast
    with Cons.prems have "Some (i, findEnd level ls (Suc i)) = Some (ts, te)"
      by (simp only:)
    then have "ts = i" "te = findEnd level ls (Suc i)"
      by auto
    moreover from f have "\<forall>rest. findHeading hs cur hi (a # rest) i
        = Some (i, findEnd level rest (Suc i))"
      by blast
    ultimately have "ts = i + 0 \<and> 0 < length (a # ls)
           \<and> headingMatch ((a # ls) ! 0) = Some (level, title)
           \<and> te = findEnd level (drop (Suc 0) (a # ls)) (Suc ts)
           \<and> (\<forall>rest. findHeading hs cur hi (take (Suc 0) (a # ls) @ rest) i
                        = Some (ts, findEnd level rest (Suc ts)))"
      using m by (simp del: findHeading.simps)
    then show ?thesis by blast
  next
    fix cur' hi'
    assume s: "\<forall>xs i. findHeading hs cur hi (a # xs) i = findHeading hs cur' hi' xs (Suc i)"
    then have "findHeading hs cur hi (a # ls) i = findHeading hs cur' hi' ls (Suc i)"
      by blast
    with Cons.prems have "findHeading hs cur' hi' ls (Suc i) = Some (ts, te)"
      by (simp del: findHeading.simps)
    from Cons.IH [OF this] obtain k level title where
      k: "ts = Suc i + k" "k < length ls" "headingMatch (ls ! k) = Some (level, title)"
        "te = findEnd level (drop (Suc k) ls) (Suc ts)"
        "\<forall>rest. findHeading hs cur' hi' (take (Suc k) ls @ rest) (Suc i)
                 = Some (ts, findEnd level rest (Suc ts))"
      by blast
    moreover from s have "\<forall>rest. findHeading hs cur hi (a # take (Suc k) ls @ rest) i
        = findHeading hs cur' hi' (take (Suc k) ls @ rest) (Suc i)"
      by blast
    ultimately have "ts = i + Suc k \<and> Suc k < length (a # ls)
           \<and> headingMatch ((a # ls) ! Suc k) = Some (level, title)
           \<and> te = findEnd level (drop (Suc (Suc k)) (a # ls)) (Suc ts)
           \<and> (\<forall>rest. findHeading hs cur hi (take (Suc (Suc k)) (a # ls) @ rest) i
                        = Some (ts, findEnd level rest (Suc ts)))"
      by (simp del: findHeading.simps)
    then show ?thesis by blast
  qed
qed

lemma resolveHeading_after_replace:
  assumes res: "resolveHeading content headingPath = Some (ts, te)"
    and free: "\<forall>l\<in>set (split C ''\<newline>''). case nextHeading l of None \<Rightarrow> True
                 | Some n \<Rightarrow> targetLevel content headingPath < n"
  shows "patchHeading content headingPath Replace C
           = Inr (join (take (Suc ts) (split content ''\<newline>'') @ [C]
                        @ drop te (split content ''\<newline>'')) ''\<newline>'')"
    and "split (join (take (Suc ts) (split content ''\<newline>'') @ [C]
                        @ drop te (split content ''\<newline>'')) ''\<newline>'') ''\<newline>''
           = take (Suc ts) (split content ''\<newline>'') @ split C ''\<newline>''
               @ drop te (split content ''\<newline>'')"
    and "findHeading (split headingPath ''::'') 0 0
           (take (Suc ts) (split content ''\<newline>'') @ split C ''\<newline>''
               @ drop te (split content ''\<newline>'')) 0
           = Some (ts, Suc ts + length (split C ''\<newline>''))"
    and "ts < length (split content ''\<newline>'')"
proof -
  let ?lines = "split content ''\<newline>''"
  let ?hs = "split headingPath ''::''"
  from res have "findHeading ?hs 0 0 ?lines 0 = Some (ts, te)"
    by (simp add: resolveHeading_def)
  from findHeading_prefix [OF this] obtain level title where
    lt: "ts < length ?lines" "headingMatch (?lines ! ts) = Some (level, title)"
      "te = findEnd level (drop (Suc ts) ?lines) (Suc ts)"
      "\<forall>rest. findHeading ?hs 0 0 (take (Suc ts) ?lines @ rest) 0
               = Some (ts, findEnd level rest (Suc ts))"
    by auto
  show "ts < length ?lines" by (rule lt(1))
  have ge: "Suc ts \<le> te" using lt(3) findEnd_ge by simp
  then have "Suc ts + (te - ts - 1) = te" by simp
  then have "splice ?lines (ts + 1) (te - ts - 1) [C] = take (Suc ts) ?lines @ [C] @ drop te ?lines"
    by (simp add: splice_def)
  with res show "patchHeading content headingPath Replace C
           = Inr (join (take (Suc ts) ?lines @ [C] @ drop te ?lines) ''\<newline>'')"
    by (simp add: patchHeading_def)
  have nl: "\<forall>l\<in>set ?lines. CHR ''\<newline>'' \<notin> set l"
    using split_lines_newline_free by blast
  have "\<forall>l\<in>set (take (Suc ts) ?lines). CHR ''\<newline>'' \<notin> set l"
    using nl by (meson in_set_takeD)
  then have pre: "concat (map (\<lambda>x. split x ''\<newline>'') (take (Suc ts) ?lines)) = take (Suc ts) ?lines"
    by (rule concat_split_lines)
  have "\<forall>l\<in>set (drop te ?lines). CHR ''\<newline>'' \<notin> set l"
    using nl by (meson in_set_dropD)
  then have post: "concat (map (\<lambda>x. split x ''\<newline>'') (drop te ?lines)) = drop te ?lines"
    by (rule concat_split_lines)
  have "split (join (take (Suc ts) ?lines @ [C] @ drop te ?lines) ''\<newline>'') ''\<newline>''
      = concat (map (\<lambda>x. split x ''\<newline>'') (take (Suc ts) ?lines @ [C] @ drop te ?lines))"
    by (rule split_join_concat) simp
  with pre post
  show "split (join (take (Suc ts) ?lines @ [C] @ drop te ?lines) ''\<newline>'') ''\<newline>''
           = take (Suc ts) ?lines @ split C ''\<newline>'' @ drop te ?lines"
    by simp
  have lvl: "targetLevel content headingPath = level"
    using res lt(2) by (simp add: targetLevel_def)
  have "drop te ?lines = drop (te - Suc ts) (drop (Suc ts) ?lines)"
    using ge by simp
  also have "\<dots> = drop (findEnd level (drop (Suc ts) ?lines) (Suc ts) - Suc ts)
                      (drop (Suc ts) ?lines)"
    using lt(3) by simp
  finally have stop: "findEnd level (drop te ?lines) (Suc ts + length (split C ''\<newline>''))
      = Suc ts + length (split C ''\<newline>'')"
    by (simp only: findEnd_stop)
  have "findEnd level (split C ''\<newline>'' @ drop te ?lines) (Suc ts)
      = findEnd level (drop te ?lines) (Suc ts + length (split C ''\<newline>''))"
    using free unfolding lvl by (rule findEnd_append)
  with stop lt(4)
  show "findHeading ?hs 0 0 (take (Suc ts) ?lines @ split C ''\<newline>'' @ drop te ?lines) 0
           = Some (ts, Suc ts + length (split C ''\<newline>''))"
    by simp
qed

text \<open>
  Claim C6, as amended. Let a heading path resolve in a document and let no line of the
  content \<open>C\<close> be a heading of the level of the target heading or of a higher one (a
  line that \<open>/^(#{1,6})\s+/\<close> matches with at most that many \<open>#\<close>). After \<open>replace\<close>
  with \<open>C\<close>, resolving the same path in the result gives the body \<open>C\<close>, whatever the
  body was before.
\<close>

theorem patchHeading_replace_roundtrip:
  assumes "patchHeading content headingPath Replace C = Inr result"
    and "\<forall>l\<in>set (split C ''\<newline>''). case nextHeading l of None \<Rightarrow> True
           | Some n \<Rightarrow> targetLevel content headingPath < n"
  shows "headingBody result headingPath = Some C"
proof -
  from assms(1) obtain ts te where res: "resolveHeading content headingPath = Some (ts, te)"
    by (cases "resolveHeading content headingPath") (auto simp: patchHeading_def)
  note r = resolveHeading_after_replace [OF res assms(2)]
  let ?lines = "split content ''\<newline>''"
  from assms(1) r(1)
  have result: "result = join (take (Suc ts) ?lines @ [C] @ drop te ?lines) ''\<newline>''"
    by simp
  have "slice (take (Suc ts) ?lines @ split C ''\<newline>'' @ drop te ?lines)
          (ts + 1) (Suc ts + length (split C ''\<newline>''))
        = split C ''\<newline>''"
    using r(4) by (simp add: slice_def)
  with result r(2) r(3) have "contentLines result headingPath = Some (split C ''\<newline>'')"
    by (simp add: contentLines_def resolveHeading_def)
  then show ?thesis by (simp add: headingBody_def join_split)
qed

theorem patchHeading_replace_roundtrip_witness:
  "patchHeading ''# Log\<newline>old entry\<newline>more\<newline># Next'' ''Log'' Replace ''fresh\<newline>## Detail\<newline>text''
     = Inr ''# Log\<newline>fresh\<newline>## Detail\<newline>text\<newline># Next''
   \<and> list_all (\<lambda>l. case nextHeading l of None \<Rightarrow> True
          | Some n \<Rightarrow> targetLevel ''# Log\<newline>old entry\<newline>more\<newline># Next'' ''Log'' < n)
        (split ''fresh\<newline>## Detail\<newline>text'' ''\<newline>'')
   \<and> headingBody ''# Log\<newline>fresh\<newline>## Detail\<newline>text\<newline># Next'' ''Log''
       = Some ''fresh\<newline>## Detail\<newline>text''"
proof -
  have p: "patchHeading ''# Log\<newline>old entry\<newline>more\<newline># Next'' ''Log'' Replace ''fresh\<newline>## Detail\<newline>text''
     = Inr ''# Log\<newline>fresh\<newline>## Detail\<newline>text\<newline># Next''"
    by code_simp
  have a: "list_all (\<lambda>l. case nextHeading l of None \<Rightarrow> True
          | Some n \<Rightarrow> targetLevel ''# Log\<newline>old entry\<newline>more\<newline># Next'' ''Log'' < n)
        (split ''fresh\<newline>## Detail\<newline>text'' ''\<newline>'')"
    by code_simp
  then have b: "\<forall>l\<in>set (split ''fresh\<newline>## Detail\<newline>text'' ''\<newline>''). case nextHeading l of None \<Rightarrow> True
          | Some n \<Rightarrow> targetLevel ''# Log\<newline>old entry\<newline>more\<newline># Next'' ''Log'' < n"
    by (simp add: list_all_iff)
  from p a show ?thesis
    using patchHeading_replace_roundtrip [OF p b] by simp
qed

text \<open>
  Claim C6 as stated fails for a content with a heading line of the target's level:
  the section read back ends at that line.
\<close>

theorem patchHeading_replace_body_cut:
  "patchHeading ''# A\<newline>old\<newline># B'' ''A'' Replace ''x\<newline># C\<newline>y''
     = Inr ''# A\<newline>x\<newline># C\<newline>y\<newline># B''
   \<and> headingBody ''# A\<newline>x\<newline># C\<newline>y\<newline># B'' ''A'' = Some ''x''
   \<and> ''x'' \<noteq> ''x\<newline># C\<newline>y''"
  by code_simp

text \<open>
  What the scan does ensure for a path of two segments: the two headings it matches
  stand in the order of the path, carry the titles of the segments, and the second has
  a deeper level than the first.
\<close>

lemma findHeading_last_segment:
  assumes "findHeading hs cur hi ls i = Some (ts, te)" and "Suc hi = length hs"
  shows "\<exists>k level title. ts = i + k \<and> k < length ls
           \<and> headingMatch (ls ! k) = Some (level, title)
           \<and> trim title = hs ! hi \<and> cur < level"
  using assms(1)
proof (induction ls arbitrary: i)
  case Nil
  then show ?case by simp
next
  case (Cons x ls)
  show ?case
  proof (cases "\<exists>level title. headingMatch x = Some (level, title)
                  \<and> trim title = hs ! hi \<and> cur < level")
    case True
    then obtain level title where
      m: "headingMatch x = Some (level, title)" "trim title = hs ! hi" "cur < level"
      by blast
    with Cons.prems assms(2) have "ts = i" by simp
    with m have "ts = i + 0 \<and> 0 < length (x # ls)
        \<and> headingMatch ((x # ls) ! 0) = Some (level, title)
        \<and> trim title = hs ! hi \<and> cur < level"
      by simp
    then show ?thesis by blast
  next
    case False
    with Cons.prems have "findHeading hs cur hi ls (Suc i) = Some (ts, te)"
      by (auto split: option.splits if_splits)
    from Cons.IH [OF this] obtain k level title where
      "ts = Suc i + k" "k < length ls" "headingMatch (ls ! k) = Some (level, title)"
      "trim title = hs ! hi" "cur < level"
      by blast
    then have "ts = i + Suc k \<and> Suc k < length (x # ls)
        \<and> headingMatch ((x # ls) ! Suc k) = Some (level, title)
        \<and> trim title = hs ! hi \<and> cur < level"
      by simp
    then show ?thesis by blast
  qed
qed

lemma findHeading_two_segments:
  assumes "findHeading [a, b] cur 0 ls i = Some (ts, te)"
  shows "\<exists>k1 k2 l1 t1 l2 t2. k1 < k2 \<and> ts = i + k2 \<and> k2 < length ls
           \<and> headingMatch (ls ! k1) = Some (l1, t1) \<and> trim t1 = a \<and> cur < l1
           \<and> headingMatch (ls ! k2) = Some (l2, t2) \<and> trim t2 = b \<and> l1 < l2"
  using assms
proof (induction ls arbitrary: i)
  case Nil
  then show ?case by simp
next
  case (Cons x ls)
  show ?case
  proof (cases "\<exists>level title. headingMatch x = Some (level, title)
                  \<and> trim title = a \<and> cur < level")
    case True
    then obtain l1 t1 where
      m: "headingMatch x = Some (l1, t1)" "trim t1 = a" "cur < l1"
      by blast
    with Cons.prems have "findHeading [a, b] l1 1 ls (Suc i) = Some (ts, te)" by simp
    from findHeading_last_segment [OF this] obtain k l2 t2 where
      "ts = Suc i + k" "k < length ls" "headingMatch (ls ! k) = Some (l2, t2)"
      "trim t2 = b" "l1 < l2"
      by auto
    with m have "0 < Suc k \<and> ts = i + Suc k \<and> Suc k < length (x # ls)
        \<and> headingMatch ((x # ls) ! 0) = Some (l1, t1) \<and> trim t1 = a \<and> cur < l1
        \<and> headingMatch ((x # ls) ! Suc k) = Some (l2, t2) \<and> trim t2 = b \<and> l1 < l2"
      by simp
    then show ?thesis by blast
  next
    case False
    with Cons.prems have "findHeading [a, b] cur 0 ls (Suc i) = Some (ts, te)"
      by (auto split: option.splits if_splits)
    from Cons.IH [OF this] obtain k1 k2 l1 t1 l2 t2 where
      "k1 < k2" "ts = Suc i + k2" "k2 < length ls"
      "headingMatch (ls ! k1) = Some (l1, t1)" "trim t1 = a" "cur < l1"
      "headingMatch (ls ! k2) = Some (l2, t2)" "trim t2 = b" "l1 < l2"
      by blast
    then have "Suc k1 < Suc k2 \<and> ts = i + Suc k2 \<and> Suc k2 < length (x # ls)
        \<and> headingMatch ((x # ls) ! Suc k1) = Some (l1, t1) \<and> trim t1 = a \<and> cur < l1
        \<and> headingMatch ((x # ls) ! Suc k2) = Some (l2, t2) \<and> trim t2 = b \<and> l1 < l2"
      by simp
    then show ?thesis by blast
  qed
qed

lemma resolveHeading_two_segments:
  assumes "resolveHeading content headingPath = Some (ts, te)"
    and "split headingPath ''::'' = [a, b]"
  shows "\<exists>k l1 t1 l2 t2. k < ts \<and> ts < length (split content ''\<newline>'')
           \<and> headingMatch (split content ''\<newline>'' ! k) = Some (l1, t1) \<and> trim t1 = a
           \<and> headingMatch (split content ''\<newline>'' ! ts) = Some (l2, t2) \<and> trim t2 = b
           \<and> l1 < l2"
proof -
  from assms have "findHeading [a, b] 0 0 (split content ''\<newline>'') 0 = Some (ts, te)"
    by (simp add: resolveHeading_def)
  from findHeading_two_segments [OF this] show ?thesis by auto
qed

text \<open>
  Claim C2 does not hold of the code. In the document below the section \<open>Section\<close> spans
  the lines 0 and 1 and ends at the heading \<open>Other\<close> of the same level, yet the path
  \<open>Section::Subsection\<close> resolves to line 3, a heading under \<open>Other\<close>, and \<open>replace\<close>
  rewrites the body there: the scan only asks for a deeper level than the segment
  matched before and never leaves a section it has passed.
\<close>

theorem resolveHeading_outside_section:
  "resolveHeading ''# Section\<newline>intro\<newline># Other\<newline>## Subsection\<newline>body'' ''Section''
     = Some (0, 2)
   \<and> resolveHeading ''# Section\<newline>intro\<newline># Other\<newline>## Subsection\<newline>body''
       ''Section::Subsection'' = Some (3, 5)
   \<and> patchHeading ''# Section\<newline>intro\<newline># Other\<newline>## Subsection\<newline>body''
       ''Section::Subsection'' Replace ''new''
       = Inr ''# Section\<newline>intro\<newline># Other\<newline>## Subsection\<newline>new''"
  by code_simp

section \<open>Properties of the ignore-pattern engine\<close>

text \<open>
  Claim C1, as amended. In every state of the engine \<open>isExcluded(".mcpignore")\<close> is true
  exactly when the engine is enabled, whatever the patterns and the matcher are; and
  \<open>load\<close> enables the engine exactly when the rule file exists and holds at least one
  pattern. So the ignore file is excluded in every enabled state, and not excluded after
  loading an empty rule file or none.
\<close>

theorem isExcluded_ignore_file_iff_enabled:
  "isExcluded regExpTest m ''.mcpignore'' = enabled m
   \<and> enabled (load v)
       = (case v ''.mcpignore'' of
            Some (TFile content) \<Rightarrow> parsePatterns content \<noteq> []
          | _ \<Rightarrow> False)"
  by (simp add: isExcluded_def load_def Let_def split: option.splits entry.splits)

text \<open>
  Claim C1 as stated fails in the initial state, when no rule file exists and after
  loading an empty rule file: the engine is disabled and excludes nothing.
\<close>

theorem isExcluded_ignore_file_disabled:
  "\<not> isExcluded rejectingRegExp initialIgnoreManager ''.mcpignore''
   \<and> \<not> isExcluded rejectingRegExp (load Map.empty) ''.mcpignore''
   \<and> \<not> isExcluded rejectingRegExp (load [''.mcpignore'' \<mapsto> TFile '''']) ''.mcpignore''"
  by (simp add: isExcluded_def load_def initialIgnoreManager_def parsePatterns_def split_def
      trim_def)

text \<open>Writes to the ignore file are refused by \<open>validateWrite\<close> in every state.\<close>

lemma validateWrite_never_ignore_file:
  "validateWrite normalizePath regExpTest s path \<noteq> Inr ''.mcpignore''"
  by (simp add: validateWrite_def Let_def)

section \<open>Properties of the session router\<close>

text \<open>
  Claim C9, as amended. A request whose session identifier is not empty and not in the
  table of active sessions is answered with the reinitialize error and the table stays
  as it was; a request without a session identifier, when the new server connects,
  enters the identifier drawn for it into the table and is handled by the new
  transport, and the table grows by exactly that identifier when it was not in use.
\<close>

theorem handleMcpRequest_sessions:
  "(sid \<noteq> [] \<and> sid \<notin> dom ts \<longrightarrow>
      handleMcpRequest ts (Some sid) newSessionId connectOk = (ts, ReinitializeError))
   \<and> handleMcpRequest ts None newSessionId True
       = (ts(newSessionId \<mapsto> newSessionId), Handled newSessionId)
   \<and> (newSessionId \<notin> dom ts \<longrightarrow>
        dom (fst (handleMcpRequest ts None newSessionId True)) = insert newSessionId (dom ts))"
  by (auto simp: handleMcpRequest_def truthy_def has_def)

theorem handleMcpRequest_sessions_witness:
  "''expired'' \<noteq> [] \<and> ''expired'' \<notin> dom [''s1'' \<mapsto> ''s1'']
   \<and> handleMcpRequest [''s1'' \<mapsto> ''s1''] (Some ''expired'') ''s2'' True
       = ([''s1'' \<mapsto> ''s1''], ReinitializeError)
   \<and> handleMcpRequest [''s1'' \<mapsto> ''s1''] None ''s2'' True
       = ([''s1'' \<mapsto> ''s1'', ''s2'' \<mapsto> ''s2''], Handled ''s2'')
   \<and> ''s2'' \<notin> dom [''s1'' \<mapsto> ''s1'']
   \<and> dom (fst (handleMcpRequest [''s1'' \<mapsto> ''s1''] None ''s2'' True))
       = insert ''s2'' (dom [''s1'' \<mapsto> ''s1''])"
  using handleMcpRequest_sessions [of "''expired''" "[''s1'' \<mapsto> ''s1'']" "''s2''" True]
  by simp

text \<open>
  Claim C9 as stated fails for the empty identifier: it is in no table, yet the request
  is treated as one without an identifier and opens a new session.
\<close>

theorem handleMcpRequest_empty_identifier:
  "'''' \<notin> dom [''s1'' \<mapsto> ''s1'']
   \<and> handleMcpRequest [''s1'' \<mapsto> ''s1''] (Some '''') ''s2'' True
       = ([''s1'' \<mapsto> ''s1'', ''s2'' \<mapsto> ''s2''], Handled ''s2'')"
  by (simp add: handleMcpRequest_def truthy_def has_def)

end
